theory Spec2Isabelle
  imports
    Complex_Main
    "HOL-Library.Char_ord"
    "HOL-Library.List_Lexorder"
    "HOL-Library.Product_Lexorder"
    "HOL-Library.Option_ord"
    "HOL-Library.Multiset"
begin

section \<open>Values of the data layer\<close>

text \<open>
  The budgeting application keeps all of its data in one SQLite file (\<^verbatim>\<open>services.py\<close>)
  and drives it from a Streamlit script (\<^verbatim>\<open>app.py\<close>). The embedding below follows the
  two files function by function.

  \<^item> A Python \<^verbatim>\<open>str\<close> is the list of its code points; the model covers the code points
    below 256, one \<^typ>\<open>char\<close> each. SQLite compares TEXT values bytewise in UTF-8, which is
    the lexicographic order of the code points, the order of \<^typ>\<open>string\<close> here.
  \<^item> A Python \<^verbatim>\<open>float\<close> (a REAL column) is an exact rational: the binary representation
    error of IEEE doubles, NaN and the infinities are outside the model.
  \<^item> Identifiers come from \<^verbatim>\<open>uuid.uuid4()\<close>, timestamps from \<^verbatim>\<open>datetime.utcnow()\<close>. Both
    are read from counters that the state carries; no two identifiers drawn from the counter
    collide, as no two version 4 UUIDs are expected to.
  \<^item> A column holding the integers 0 and 1 (\<^verbatim>\<open>active\<close>, \<^verbatim>\<open>paid\<close>) is a \<^typ>\<open>bool\<close>; a
    nullable column is an \<^typ>\<open>'a option\<close>.
\<close>

type_synonym ident = nat
type_synonym stamp = nat
type_synonym amount = rat

datatype error = ValueError string | NameError string | OperationalError string

text \<open>\<^verbatim>\<open>str.strip()\<close> removes leading and trailing white space: the code points for which
  \<^verbatim>\<open>str.isspace\<close> holds, of which twelve lie below 256.\<close>

definition isspace :: "char \<Rightarrow> bool" where
  "isspace c = (of_char c \<in> {9, 10, 11, 12, 13, 28, 29, 30, 31, 32, 133, 160 :: nat})"

definition strip :: "string \<Rightarrow> string" where
  "strip s = rev (dropWhile isspace (rev (dropWhile isspace s)))"

text \<open>The guard \<^verbatim>\<open>len(month) != 7 or month[4] != "-"\<close> that four operations share; the
  index is read only when the length is 7.\<close>

definition month_shape_bad :: "string \<Rightarrow> bool" where
  "month_shape_bad month = (length month \<noteq> 7 \<or> month ! 4 \<noteq> CHR ''-'')"

definition month_from_date :: "string \<Rightarrow> string" where
  "month_from_date iso_date = take 7 iso_date"

text \<open>The shape the specification calls YYYY-MM: four digits, a hyphen, two digits.\<close>

definition isdigit :: "char \<Rightarrow> bool" where
  "isdigit c = (48 \<le> (of_char c :: nat) \<and> (of_char c :: nat) \<le> 57)"

definition valid_month :: "string \<Rightarrow> bool" where
  "valid_month m =
     (length m = 7 \<and> list_all isdigit (take 4 m) \<and> m ! 4 = CHR ''-'' \<and> list_all isdigit (drop 5 m))"

text \<open>SQLite's \<^verbatim>\<open>ROUND(x, n)\<close> rounds to \<open>n\<close> decimals, a tie away from zero; Python's
  \<^verbatim>\<open>round(x, n)\<close> rounds a tie to the even neighbour.\<close>

definition sql_round :: "amount \<Rightarrow> nat \<Rightarrow> amount" where
  "sql_round x n = sgn x * of_int \<lfloor>\<bar>x\<bar> * 10 ^ n + 1 / 2\<rfloor> / 10 ^ n"


section \<open>The tables\<close>

text \<open>One record per table, with the columns that the statements of \<^verbatim>\<open>services.py\<close> name.
  The creation and update times of owners, categories, bills and accounts are left out: no
  statement modelled here reads or writes them.\<close>

record owner =
  o_id :: ident
  system_key :: string
  display_name :: string
  sort_order :: int

record category =
  c_id :: ident
  c_name :: string
  c_active :: bool

record bill =
  b_id :: ident
  b_owner_id :: ident
  b_name :: string
  due_day :: "int option"
  default_amount :: "amount option"
  b_active :: bool

record bill_payment =
  bp_id :: ident
  bp_bill_id :: ident
  bp_month :: string
  paid :: bool
  paid_amount :: "amount option"
  paid_date :: "string option"
  bp_note :: "string option"
  bp_created_at :: stamp
  bp_updated_at :: stamp

record account =
  a_id :: ident
  a_owner_id :: ident
  a_name :: string
  a_type :: string
  apr :: "amount option"
  credit_limit :: "amount option"
  start_balance :: "amount option"
  a_active :: bool

record account_snapshot =
  s_id :: ident
  s_account_id :: ident
  s_month :: string
  balance :: amount
  payment :: amount
  s_created_at :: stamp
  s_updated_at :: stamp

record txn =
  t_id :: ident
  txn_date :: string
  t_owner_id :: ident
  t_category_id :: ident
  description :: string
  t_amount :: amount
  t_created_at :: stamp
  t_updated_at :: stamp
  deleted_at :: "stamp option"

record budget =
  bg_id :: ident
  bg_month :: string
  bg_owner_id :: ident
  bg_category_id :: ident
  planned_amount :: amount
  bg_created_at :: stamp
  bg_updated_at :: stamp

record month_closing =
  mc_id :: ident
  mc_month :: string
  closed_at :: stamp
  mc_note :: "string option"

text \<open>The database file, with the two counters behind \<^verbatim>\<open>uid()\<close> and \<^verbatim>\<open>now()\<close>. Rows are
  kept in insertion order.\<close>

record world =
  owners :: "owner list"
  categories :: "category list"
  bills :: "bill list"
  bill_payments :: "bill_payment list"
  accounts :: "account list"
  account_snapshots :: "account_snapshot list"
  transactions :: "txn list"
  budgets :: "budget list"
  month_closings :: "month_closing list"
  uid_next :: nat
  clock :: nat

definition uid :: "world \<Rightarrow> ident \<times> world" where
  "uid w = (uid_next w, w\<lparr>uid_next := Suc (uid_next w)\<rparr>)"

definition now :: "world \<Rightarrow> stamp \<times> world" where
  "now w = (clock w, w\<lparr>clock := Suc (clock w)\<rparr>)"

text \<open>Modelled from the spec: \<^verbatim>\<open>schema.sql\<close> is not among the sources. The data model of the
  specification gives the uniqueness constraints the statements of \<^verbatim>\<open>services.py\<close> rely on:
  one payment row per (bill, month), at most one snapshot per (account, month), at most one
  budget per (month, owner, category). The \<^verbatim>\<open>ON CONFLICT\<close> targets of the two upserts name
  the last two. Identifiers are unique per table, and an account belongs to an owner
  (\<^verbatim>\<open>PRAGMA foreign_keys = ON\<close>). Any other constraint the schema may declare, and the storage
  failure it would raise, is outside the model.\<close>

definition bill_payment_key :: "bill_payment \<Rightarrow> ident \<times> string" where
  "bill_payment_key p = (bp_bill_id p, bp_month p)"

definition snapshot_key :: "account_snapshot \<Rightarrow> ident \<times> string" where
  "snapshot_key s = (s_account_id s, s_month s)"

definition budget_key :: "budget \<Rightarrow> string \<times> ident \<times> ident" where
  "budget_key b = (bg_month b, bg_owner_id b, bg_category_id b)"


section \<open>Month state machine\<close>

text \<open>\<^verbatim>\<open>SELECT 1 FROM month_closings WHERE month=? LIMIT 1\<close>, and whether a row came back.\<close>

definition is_month_closed :: "string \<Rightarrow> world \<Rightarrow> bool" where
  "is_month_closed month0 w =
     (let month = strip month0
      in [r \<leftarrow> month_closings w. mc_month r = month] \<noteq> [])"

section \<open>Bills and lazy payment rows\<close>

text \<open>\<^verbatim>\<open>INSERT OR IGNORE INTO bill_payments\<close>: the row is dropped when it conflicts with
  a stored row, that is, when a row with its (bill, month) key is already there (the
  uniqueness constraint of the schema, as above).\<close>

definition insert_or_ignore_bill_payment :: "bill_payment \<Rightarrow> world \<Rightarrow> world" where
  "insert_or_ignore_bill_payment row w =
     (if bill_payment_key row \<in> set (map bill_payment_key (bill_payments w)) then w
      else w\<lparr>bill_payments := bill_payments w @ [row]\<rparr>)"

text \<open>The loop of \<^verbatim>\<open>ensure_bill_payment_rows\<close>: the arguments of the statement draw one
  identifier and two timestamps for every bill, inserted or not.\<close>

fun ensure_rows_loop :: "string \<Rightarrow> ident list \<Rightarrow> world \<Rightarrow> world" where
  "ensure_rows_loop month [] w = w"
| "ensure_rows_loop month (b # bs) w =
     (let (i, w1) = uid w; (created, w2) = now w1; (updated, w3) = now w2
      in ensure_rows_loop month bs
           (insert_or_ignore_bill_payment
              \<lparr>bp_id = i, bp_bill_id = b, bp_month = month, paid = False, paid_amount = None,
               paid_date = None, bp_note = None, bp_created_at = created,
               bp_updated_at = updated\<rparr> w3))"

definition ensure_bill_payment_rows :: "string \<Rightarrow> world \<Rightarrow> world" where
  "ensure_bill_payment_rows month0 w =
     (let month = strip month0;
          bills = [b_id b. b \<leftarrow> bills w, b_active b]
      in ensure_rows_loop month bills w)"

record bills_due_row =
  bd_owner :: string
  bd_bill :: string
  bd_due_day :: "int option"
  bd_planned :: "amount option"
  bd_paid :: bool
  bd_paid_amount :: "amount option"
  bd_paid_date :: "string option"
  bd_note :: "string option"
  bd_bill_id :: ident

text \<open>\<^verbatim>\<open>ORDER BY\<close> is a stable sort of the joined rows on the key; SQLite puts NULL first
  in ascending order, as \<^term>\<open>None\<close> is least here.\<close>

definition bills_due_view :: "string \<Rightarrow> world \<Rightarrow> bills_due_row list \<times> world" where
  "bills_due_view month0 w0 =
     (let month = strip month0;
          w = ensure_bill_payment_rows month w0;
          joined = [(b, ow, bp). b \<leftarrow> bills w, ow \<leftarrow> owners w, o_id ow = b_owner_id b,
                      bp \<leftarrow> bill_payments w, bp_bill_id bp = b_id b \<and> bp_month bp = month,
                      b_active b]
      in (map (\<lambda>(b, ow, bp).
                \<lparr>bd_owner = display_name ow, bd_bill = b_name b, bd_due_day = due_day b,
                 bd_planned = default_amount b, bd_paid = paid bp,
                 bd_paid_amount = paid_amount bp, bd_paid_date = paid_date bp,
                 bd_note = bp_note bp, bd_bill_id = b_id b\<rparr>)
            (sort_key (\<lambda>(b, ow, bp). (due_day b, display_name ow, b_name b)) joined),
          w))"


section \<open>Month closeout\<close>

definition close_month :: "string \<Rightarrow> string option \<Rightarrow> world \<Rightarrow> error + world" where
  "close_month month0 note w =
     (let month = strip month0 in
      if month_shape_bad month then Inl (ValueError ''Month must be YYYY-MM.'')
      else if is_month_closed month w then Inr w
      else
        (let w1 = ensure_bill_payment_rows month w;
             (i, w2) = uid w1;
             (stamp, w3) = now w2;
             note' = (case note of None \<Rightarrow> None
                      | Some n \<Rightarrow> if n = [] then None else Some (strip n))
         in Inr (w3\<lparr>month_closings := month_closings w3 @
                      [\<lparr>mc_id = i, mc_month = month, closed_at = stamp, mc_note = note'\<rparr>]\<rparr>)))"

text \<open>A payment row as the loop inserts it: unpaid, with no amount, date or note.\<close>

definition blank_payment :: "string \<Rightarrow> bill_payment \<Rightarrow> bool" where
  "blank_payment month p =
     (bp_month p = month \<and> \<not> paid p \<and> paid_amount p = None \<and> paid_date p = None \<and> bp_note p = None)"

section \<open>Account snapshots\<close>

text \<open>\<^verbatim>\<open>INSERT ... ON CONFLICT(account_id, month) DO UPDATE SET\<close>: when a row with the key
  exists, its balance, payment and update time are replaced; its identifier and creation
  time stay.\<close>

definition upsert_snapshot ::
  "ident \<Rightarrow> string \<Rightarrow> amount \<Rightarrow> amount \<Rightarrow> world \<Rightarrow> error + world"
where
  "upsert_snapshot account_id month0 balance' payment' w =
     (let month = strip month0 in
      if month_shape_bad month then Inl (ValueError ''Month must be YYYY-MM.'')
      else
        (let (i, w1) = uid w; (created, w2) = now w1; (updated, w3) = now w2
         in Inr (if (account_id, month) \<in> set (map snapshot_key (account_snapshots w3))
                 then w3\<lparr>account_snapshots :=
                          map (\<lambda>s. if snapshot_key s = (account_id, month)
                                    then s\<lparr>balance := balance', payment := payment',
                                           s_updated_at := updated\<rparr>
                                    else s)
                            (account_snapshots w3)\<rparr>
                 else w3\<lparr>account_snapshots := account_snapshots w3 @
                          [\<lparr>s_id = i, s_account_id = account_id, s_month = month,
                            balance = balance', payment = payment', s_created_at = created,
                            s_updated_at = updated\<rparr>]\<rparr>)))"

section \<open>Transactions\<close>




text \<open>The filter both listings add when \<^verbatim>\<open>month\<close> is neither \<^verbatim>\<open>None\<close> nor empty.\<close>

definition in_month :: "string option \<Rightarrow> txn \<Rightarrow> bool" where
  "in_month month t =
     (case month of None \<Rightarrow> True
      | Some m \<Rightarrow> if m = [] then True else take 7 (txn_date t) = m)"

record txn_row =
  tr_id :: ident
  tr_txn_date :: string
  tr_owner :: string
  tr_category :: string
  tr_description :: string
  tr_amount :: amount

text \<open>A descending \<^verbatim>\<open>ORDER BY\<close> is the reverse of the stable ascending sort.\<close>

definition get_transactions :: "string option \<Rightarrow> world \<Rightarrow> txn_row list" where
  "get_transactions month w =
     map (\<lambda>(t, ow, c).
           \<lparr>tr_id = t_id t, tr_txn_date = txn_date t, tr_owner = display_name ow,
            tr_category = c_name c, tr_description = description t, tr_amount = t_amount t\<rparr>)
       (rev (sort_key (\<lambda>(t, ow, c). txn_date t)
          [(t, ow, c). t \<leftarrow> transactions w, ow \<leftarrow> owners w, o_id ow = t_owner_id t,
             c \<leftarrow> categories w, c_id c = t_category_id t,
             deleted_at t = None \<and> in_month month t]))"

definition soft_delete_transaction :: "ident \<Rightarrow> world \<Rightarrow> world" where
  "soft_delete_transaction txn_id w =
     (let (deleted, w1) = now w; (updated, w2) = now w1
      in w2\<lparr>transactions :=
              map (\<lambda>t. if t_id t = txn_id
                        then t\<lparr>deleted_at := Some deleted, t_updated_at := updated\<rparr>
                        else t)
                (transactions w2)\<rparr>)"

record export_row =
  ex_txn_date :: string
  ex_owner :: string
  ex_category :: string
  ex_amount :: amount
  ex_description :: string

definition export_transactions_rows :: "string option \<Rightarrow> world \<Rightarrow> export_row list" where
  "export_transactions_rows month w =
     map (\<lambda>(t, ow, c).
           \<lparr>ex_txn_date = txn_date t, ex_owner = display_name ow, ex_category = c_name c,
            ex_amount = t_amount t, ex_description = description t\<rparr>)
       (sort_key (\<lambda>(t, ow, c). txn_date t)
          [(t, ow, c). t \<leftarrow> transactions w, ow \<leftarrow> owners w, o_id ow = t_owner_id t,
             c \<leftarrow> categories w, c_id c = t_category_id t,
             deleted_at t = None \<and> in_month month t])"

text \<open>The state in which the rows with a given identifier are not stored at all: what a
  hard delete would leave.\<close>

definition without_transaction :: "ident \<Rightarrow> world \<Rightarrow> world" where
  "without_transaction txn_id w =
     w\<lparr>transactions := [t \<leftarrow> transactions w. t_id t \<noteq> txn_id]\<rparr>"

section \<open>Budgets\<close>

definition upsert_budget ::
  "string \<Rightarrow> ident \<Rightarrow> ident \<Rightarrow> amount \<Rightarrow> world \<Rightarrow> error + world"
where
  "upsert_budget month0 owner_id category_id planned_amount' w =
     (let month = strip month0 in
      if month_shape_bad month then Inl (ValueError ''Month must be YYYY-MM.'')
      else
        (let (i, w1) = uid w; (created, w2) = now w1; (updated, w3) = now w2
         in Inr (if (month, owner_id, category_id) \<in> set (map budget_key (budgets w3))
                 then w3\<lparr>budgets :=
                          map (\<lambda>b. if budget_key b = (month, owner_id, category_id)
                                    then b\<lparr>planned_amount := planned_amount',
                                           bg_updated_at := updated\<rparr>
                                    else b)
                            (budgets w3)\<rparr>
                 else w3\<lparr>budgets := budgets w3 @
                          [\<lparr>bg_id = i, bg_month = month, bg_owner_id = owner_id,
                            bg_category_id = category_id, planned_amount = planned_amount',
                            bg_created_at = created, bg_updated_at = updated\<rparr>]\<rparr>)))"

text \<open>The common table expression \<^verbatim>\<open>act\<close>: one row per (owner, category) group of the
  month's transactions that are not deleted, with the sum of the group.\<close>

definition act :: "string \<Rightarrow> world \<Rightarrow> ((ident \<times> ident) \<times> amount) list" where
  "act month w =
     (let ts = [t \<leftarrow> transactions w. deleted_at t = None \<and> take 7 (txn_date t) = month]
      in [(k, sum_list [t_amount t. t \<leftarrow> ts, (t_owner_id t, t_category_id t) = k]).
            k \<leftarrow> remdups (map (\<lambda>t. (t_owner_id t, t_category_id t)) ts)])"

text \<open>The right-hand side of a \<^verbatim>\<open>LEFT JOIN\<close> for one left row: the matching rows, or one
  NULL row when there is none.\<close>

definition left_join :: "'a list \<Rightarrow> 'a option list" where
  "left_join xs = (if xs = [] then [None] else map Some xs)"

definition coalesce :: "amount option \<Rightarrow> amount \<Rightarrow> amount" where
  "coalesce x d = (case x of None \<Rightarrow> d | Some v \<Rightarrow> v)"

record pva_row =
  pva_owner :: string
  pva_category :: string
  planned :: amount
  actual :: amount
  variance :: amount

definition pva_joined ::
  "string \<Rightarrow> world \<Rightarrow> (owner \<times> category \<times> budget option \<times> ((ident \<times> ident) \<times> amount) option) list"
where
  "pva_joined month w =
     sort_key (\<lambda>(ow, c, b, a). (sort_order ow, c_name c))
       [(ow, c, b, a). ow \<leftarrow> owners w, c \<leftarrow> categories w,
          b \<leftarrow> left_join [b \<leftarrow> budgets w. bg_month b = month \<and> bg_owner_id b = o_id ow \<and>
                                           bg_category_id b = c_id c],
          a \<leftarrow> left_join [a \<leftarrow> act month w. fst (fst a) = o_id ow \<and> snd (fst a) = c_id c],
          c_active c]"

definition pva_select ::
  "owner \<times> category \<times> budget option \<times> ((ident \<times> ident) \<times> amount) option \<Rightarrow> pva_row"
where
  "pva_select = (\<lambda>(ow, c, b, a).
     \<lparr>pva_owner = display_name ow, pva_category = c_name c,
      planned = coalesce (map_option planned_amount b) 0,
      actual = sql_round (coalesce (map_option snd a) 0) 2,
      variance = sql_round (coalesce (map_option planned_amount b) 0 -
                            coalesce (map_option snd a) 0) 2\<rparr>)"

definition planned_vs_actual :: "string \<Rightarrow> world \<Rightarrow> error + pva_row list" where
  "planned_vs_actual month0 w =
     (let month = strip month0 in
      if month_shape_bad month then Inl (ValueError ''Month must be YYYY-MM.'')
      else Inr (map pva_select (pva_joined month w)))"




section \<open>A function that cannot run\<close>

text \<open>\<^verbatim>\<open>update_bill_amount_and_recurring\<close> begins with \<^verbatim>\<open>conn = get_db()\<close>. The name is looked
  up among the module's globals: its imports, its constant and its functions. (No builtin is
  called \<^verbatim>\<open>get_db\<close>.) The statement that would follow names the columns \<^verbatim>\<open>planned\<close> and
  \<^verbatim>\<open>recurring\<close>; the columns of \<^verbatim>\<open>bills\<close> are those that \<^verbatim>\<open>add_bill\<close> inserts.\<close>

definition module_globals :: "string list" where
  "module_globals =
     [''sqlite3'', ''uuid'', ''datetime'', ''Iterable'', ''Optional'', ''DB'', ''now'', ''uid'',
      ''conn'', ''init_db'', ''month_from_date'', ''is_month_closed'', ''get_known_months'',
      ''is_first_run'', ''get_owners'', ''rename_owner'', ''owner_id_from_label_or_key'',
      ''get_categories'', ''add_category'', ''get_or_create_category_id'',
      ''set_category_active'', ''rename_category'', ''add_bill'', ''get_bills'',
      ''set_bill_active'', ''ensure_bill_payment_rows'', ''bills_due_view'', ''set_bill_paid'',
      ''update_bill_amount_and_recurring'', ''add_account'', ''get_accounts'',
      ''upsert_snapshot'', ''get_snapshots'', ''latest_snapshot_by_account'',
      ''add_transaction'', ''bulk_add_transactions'', ''get_transactions'',
      ''soft_delete_transaction'', ''export_transactions_rows'', ''upsert_budget'',
      ''planned_vs_actual'', ''close_month'', ''get_month_closings'']"

definition load_global :: "string \<Rightarrow> error + unit" where
  "load_global name =
     (if name \<in> set module_globals then Inr ()
      else Inl (NameError (''name '' @ name @ '' is not defined'')))"

definition bill_columns :: "string list" where
  "bill_columns =
     [''id'', ''owner_id'', ''name'', ''due_day'', ''default_amount'', ''active'',
      ''created_at'', ''updated_at'']"

definition update_bill_amount_and_recurring ::
  "ident \<Rightarrow> amount \<Rightarrow> bool \<Rightarrow> world \<Rightarrow> error + world"
where
  "update_bill_amount_and_recurring bill_id planned_amount' recurring w =
     (case load_global ''get_db'' of
        Inl e \<Rightarrow> Inl e
      | Inr _ \<Rightarrow>
          (if ''planned'' \<in> set bill_columns \<and> ''recurring'' \<in> set bill_columns then Inr w
           else Inl (OperationalError ''no such column'')))"

text \<open>The joined and filtered rows that both listings of transactions select from.\<close>

definition txn_join :: "string option \<Rightarrow> world \<Rightarrow> (txn \<times> owner \<times> category) list" where
  "txn_join month w =
     [(t, ow, c). t \<leftarrow> transactions w, ow \<leftarrow> owners w, o_id ow = t_owner_id t,
        c \<leftarrow> categories w, c_id c = t_category_id t,
        deleted_at t = None \<and> in_month month t]"



section \<open>Debt progress\<close>













section \<open>The confirmation gate of the Streamlit script\<close>






text \<open>The outcome of \<^verbatim>\<open>confirm_bar_if_pending\<close>: it returns \<^verbatim>\<open>True\<close>, returns
  \<^verbatim>\<open>False\<close>, or ends the run in \<^verbatim>\<open>st.rerun()\<close> after a click on Cancel.\<close>

datatype bar = Bar_true | Bar_false | Bar_rerun


text \<open>How a block of the script ends: in \<^verbatim>\<open>st.rerun()\<close> or an uncaught exception, which
  end the run, or at its last statement, after which the script goes on.\<close>

datatype flow = Stop world | Go_on world

text \<open>\<^verbatim>\<open>try: write(); st.success(...); st.rerun()\<close> with \<^verbatim>\<open>except Exception as e: st.error(str(e))\<close>,
  and the same three statements outside a \<^verbatim>\<open>try\<close>.\<close>

definition try_write :: "(world \<Rightarrow> error + world) \<Rightarrow> world \<Rightarrow> flow" where
  "try_write write w = (case write w of Inr w' \<Rightarrow> Stop w' | Inl e \<Rightarrow> Go_on w)"

definition bare_write :: "(world \<Rightarrow> error + world) \<Rightarrow> world \<Rightarrow> flow" where
  "bare_write write w = (case write w of Inr w' \<Rightarrow> Stop w' | Inl e \<Rightarrow> Stop w)"

definition flow_world :: "flow \<Rightarrow> world" where
  "flow_world fl = (case fl of Stop w \<Rightarrow> w | Go_on w \<Rightarrow> w)"

subsection \<open>Add Expense\<close>




subsection \<open>Budgets\<close>




subsection \<open>Bills Due\<close>




subsection \<open>Accounts and snapshots\<close>




subsection \<open>CSV import\<close>







subsection \<open>The five gated writes together\<close>



text \<open>The write itself, as one call of the data layer: the state after it, which is the
  state before it when the call raises.\<close>

definition after_write :: "(world \<Rightarrow> error + world) \<Rightarrow> world \<Rightarrow> world" where
  "after_write write w = (case write w of Inr w' \<Rightarrow> w' | Inl e \<Rightarrow> w)"







section \<open>A sample database\<close>

text \<open>Three owners, three categories, two bills, two accounts with snapshots, two
  transactions and one budget; no month is closed and no payment row exists yet.\<close>

definition demo :: world where
  "demo =
     \<lparr>owners = [\<lparr>o_id = 1, system_key = ''shared'', display_name = ''Shared'', sort_order = 0\<rparr>,
                \<lparr>o_id = 2, system_key = ''person_1'', display_name = ''Ann'', sort_order = 1\<rparr>,
                \<lparr>o_id = 3, system_key = ''person_2'', display_name = ''Bob'', sort_order = 2\<rparr>],
      categories = [\<lparr>c_id = 10, c_name = ''Groceries'', c_active = True\<rparr>,
                    \<lparr>c_id = 11, c_name = ''Dining'', c_active = True\<rparr>,
                    \<lparr>c_id = 12, c_name = ''Archive'', c_active = False\<rparr>],
      bills = [\<lparr>b_id = 20, b_owner_id = 1, b_name = ''Rent'', due_day = Some 1,
                 default_amount = Some 1200, b_active = True\<rparr>,
               \<lparr>b_id = 21, b_owner_id = 2, b_name = ''Gym'', due_day = None,
                 default_amount = Some 30, b_active = False\<rparr>],
      bill_payments = [],
      accounts = [\<lparr>a_id = 30, a_owner_id = 2, a_name = ''Visa'', a_type = ''CREDIT_CARD'',
                    apr = None, credit_limit = Some 500, start_balance = Some 1000,
                    a_active = True\<rparr>,
                  \<lparr>a_id = 31, a_owner_id = 3, a_name = ''Car'', a_type = ''LOAN'',
                    apr = Some 4, credit_limit = None, start_balance = None,
                    a_active = True\<rparr>],
      account_snapshots =
        [\<lparr>s_id = 40, s_account_id = 30, s_month = ''2026-01'', balance = 400, payment = 50,
           s_created_at = 1, s_updated_at = 1\<rparr>,
         \<lparr>s_id = 41, s_account_id = 30, s_month = ''2025-12'', balance = 600, payment = 50,
           s_created_at = 2, s_updated_at = 2\<rparr>],
      transactions =
        [\<lparr>t_id = 50, txn_date = ''2026-01-05'', t_owner_id = 1, t_category_id = 10,
           description = ''milk'', t_amount = 25 / 2, t_created_at = 3, t_updated_at = 3,
           deleted_at = None\<rparr>,
         \<lparr>t_id = 51, txn_date = ''2026-01-07'', t_owner_id = 1, t_category_id = 10,
           description = ''bread'', t_amount = 29 / 4, t_created_at = 4, t_updated_at = 4,
           deleted_at = None\<rparr>],
      budgets = [\<lparr>bg_id = 60, bg_month = ''2026-01'', bg_owner_id = 1, bg_category_id = 10,
                   planned_amount = 100, bg_created_at = 5, bg_updated_at = 5\<rparr>],
      month_closings = [],
      uid_next = 100, clock = 1000\<rparr>"



section \<open>Facts about strings and months\<close>

lemma world_tables_uid [simp]:
  "bill_payments (snd (uid w)) = bill_payments w"
  "month_closings (snd (uid w)) = month_closings w"
  "bills (snd (uid w)) = bills w"
  by (simp_all add: uid_def)

lemma dropWhile_hd_id: "xs = [] \<or> \<not> P (hd xs) \<Longrightarrow> dropWhile P xs = xs"
  by (cases xs) auto

lemma strip_first: "strip s = [] \<or> \<not> isspace (hd (strip s))"
proof -
  define t where "t = dropWhile isspace s"
  define u where "u = dropWhile isspace (rev t)"
  have s: "strip s = rev u" by (simp add: strip_def t_def u_def)
  have "\<exists>v. rev t = v @ u" unfolding u_def by (metis takeWhile_dropWhile_id)
  then obtain v where "rev t = v @ u" by blast
  then have t: "t = rev u @ rev v" by (metis rev_append rev_rev_ident)
  show ?thesis
  proof (cases "rev u = []")
    case True then show ?thesis using s by simp
  next
    case False
    then have "hd (rev u) = hd t" using t by (metis hd_append2)
    moreover have "t \<noteq> []" using t False by simp
    then have "\<not> isspace (hd t)" unfolding t_def by (rule hd_dropWhile)
    ultimately show ?thesis using s by simp
  qed
qed

lemma strip_idem: "strip (strip s) = strip s"
proof -
  have a: "dropWhile isspace (strip s) = strip s"
    using strip_first [of s] by (rule dropWhile_hd_id)
  have "strip (strip s) = rev (dropWhile isspace (rev (strip s)))"
    unfolding strip_def [of "strip s"] a ..
  also have "\<dots> = strip s" by (simp add: strip_def)
  finally show ?thesis .
qed

lemma isdigit_not_space: "isdigit c \<Longrightarrow> \<not> isspace c"
  by (auto simp: isdigit_def isspace_def)

lemma strip_no_space: "s \<noteq> [] \<Longrightarrow> \<not> isspace (hd s) \<Longrightarrow> \<not> isspace (last s) \<Longrightarrow> strip s = s"
  by (simp add: strip_def dropWhile_hd_id hd_rev)

lemma valid_month_strip: "valid_month m \<Longrightarrow> strip m = m"
proof -
  assume v: "valid_month m"
  then obtain a b c d e f g where m: "m = [a, b, c, d, e, f, g]"
    by (auto simp: valid_month_def length_Suc_conv numeral_eq_Suc)
  with v have "isdigit a" "isdigit g" by (auto simp: valid_month_def numeral_eq_Suc)
  then show ?thesis using m by (simp add: strip_no_space isdigit_not_space)
qed

lemma valid_month_shape: "valid_month m \<Longrightarrow> \<not> month_shape_bad m"
  by (simp add: valid_month_def month_shape_bad_def)

section \<open>Facts about the lazy payment rows\<close>

lemma ensure_rows_loop_frame:
  "owners (ensure_rows_loop month bs w) = owners w"
  "categories (ensure_rows_loop month bs w) = categories w"
  "bills (ensure_rows_loop month bs w) = bills w"
  "accounts (ensure_rows_loop month bs w) = accounts w"
  "account_snapshots (ensure_rows_loop month bs w) = account_snapshots w"
  "transactions (ensure_rows_loop month bs w) = transactions w"
  "budgets (ensure_rows_loop month bs w) = budgets w"
  "month_closings (ensure_rows_loop month bs w) = month_closings w"
  by (induction bs arbitrary: w;
      simp add: uid_def now_def insert_or_ignore_bill_payment_def Let_def)+

lemma ensure_rows_loop_appends:
  "\<exists>new. bill_payments (ensure_rows_loop month bs w) = bill_payments w @ new \<and>
         list_all (blank_payment month) new \<and> set (map bp_bill_id new) \<subseteq> set bs"
proof (induction bs arbitrary: w)
  case Nil
  then show ?case by simp
next
  case (Cons b bs)
  define row where "row = \<lparr>bp_id = uid_next w, bp_bill_id = b, bp_month = month, paid = False,
     paid_amount = None, paid_date = None, bp_note = None, bp_created_at = clock w,
     bp_updated_at = Suc (clock w)\<rparr>"
  define w3 where "w3 = w\<lparr>uid_next := Suc (uid_next w), clock := Suc (Suc (clock w))\<rparr>"
  have step: "ensure_rows_loop month (b # bs) w =
      ensure_rows_loop month bs (insert_or_ignore_bill_payment row w3)"
    by (simp add: uid_def now_def row_def w3_def)
  obtain new where new: "bill_payments (ensure_rows_loop month bs (insert_or_ignore_bill_payment row w3))
        = bill_payments (insert_or_ignore_bill_payment row w3) @ new"
      "list_all (blank_payment month) new" "set (map bp_bill_id new) \<subseteq> set bs"
    using Cons.IH by blast
  have "\<exists>r. bill_payments (insert_or_ignore_bill_payment row w3) = bill_payments w @ r \<and>
         list_all (blank_payment month) r \<and> set (map bp_bill_id r) \<subseteq> {b}"
    by (cases "bill_payment_key row \<in> set (map bill_payment_key (bill_payments w3))")
       (auto simp: insert_or_ignore_bill_payment_def w3_def row_def blank_payment_def)
  then obtain r where r: "bill_payments (insert_or_ignore_bill_payment row w3) = bill_payments w @ r"
      "list_all (blank_payment month) r" "set (map bp_bill_id r) \<subseteq> {b}" by blast
  show ?case
    unfolding step
    by (rule exI [of _ "r @ new"]) (use new r in auto)
qed

lemma insert_or_ignore_has_key:
  "bill_payment_key row \<in> set (map bill_payment_key (bill_payments (insert_or_ignore_bill_payment row w)))"
  by (simp add: insert_or_ignore_bill_payment_def)

lemma ensure_rows_loop_keeps_keys:
  "k \<in> set (map bill_payment_key (bill_payments w)) \<Longrightarrow>
   k \<in> set (map bill_payment_key (bill_payments (ensure_rows_loop month bs w)))"
  using ensure_rows_loop_appends [of month bs w] by auto

lemma ensure_rows_loop_covers:
  "b \<in> set bs \<Longrightarrow>
   (b, month) \<in> set (map bill_payment_key (bill_payments (ensure_rows_loop month bs w)))"
proof (induction bs arbitrary: w)
  case Nil
  then show ?case by simp
next
  case (Cons a bs)
  define row where "row = \<lparr>bp_id = uid_next w, bp_bill_id = a, bp_month = month, paid = False,
     paid_amount = None, paid_date = None, bp_note = None, bp_created_at = clock w,
     bp_updated_at = Suc (clock w)\<rparr>"
  define w3 where "w3 = w\<lparr>uid_next := Suc (uid_next w), clock := Suc (Suc (clock w))\<rparr>"
  have step: "ensure_rows_loop month (a # bs) w =
      ensure_rows_loop month bs (insert_or_ignore_bill_payment row w3)"
    by (simp add: uid_def now_def row_def w3_def)
  show ?case
  proof (cases "b = a")
    case True
    have "bill_payment_key row = (b, month)" by (simp add: row_def bill_payment_key_def True)
    then show ?thesis
      unfolding step
      using ensure_rows_loop_keeps_keys [OF insert_or_ignore_has_key [of row w3]] by simp
  next
    case False
    then have "b \<in> set bs" using Cons.prems by simp
    then show ?thesis unfolding step by (rule Cons.IH)
  qed
qed

lemma ensure_rows_loop_distinct:
  "distinct (map bill_payment_key (bill_payments w)) \<Longrightarrow>
   distinct (map bill_payment_key (bill_payments (ensure_rows_loop month bs w)))"
  by (induction bs arbitrary: w)
     (auto simp: uid_def now_def insert_or_ignore_bill_payment_def Let_def)

lemma ensure_rows_loop_noop:
  "\<forall>b \<in> set bs. (b, month) \<in> set (map bill_payment_key (bill_payments w)) \<Longrightarrow>
   bill_payments (ensure_rows_loop month bs w) = bill_payments w"
  by (induction bs arbitrary: w)
     (auto simp: uid_def now_def insert_or_ignore_bill_payment_def Let_def bill_payment_key_def)

lemma insert_or_ignore_month_distinct:
  assumes "distinct (map bill_payment_key [p \<leftarrow> bill_payments w. bp_month p = month])"
  shows "distinct (map bill_payment_key
     [p \<leftarrow> bill_payments (insert_or_ignore_bill_payment row w). bp_month p = month])"
proof (cases "bill_payment_key row \<in> set (map bill_payment_key (bill_payments w))")
  case True
  then show ?thesis using assms by (simp add: insert_or_ignore_bill_payment_def)
next
  case False
  then have "bill_payment_key row \<notin>
      set (map bill_payment_key [p \<leftarrow> bill_payments w. bp_month p = month])"
    by auto
  then show ?thesis using assms False by (simp add: insert_or_ignore_bill_payment_def)
qed

lemma ensure_rows_loop_month_distinct:
  "distinct (map bill_payment_key [p \<leftarrow> bill_payments w. bp_month p = month]) \<Longrightarrow>
   distinct (map bill_payment_key
     [p \<leftarrow> bill_payments (ensure_rows_loop month bs w). bp_month p = month])"
proof (induction bs arbitrary: w)
  case Nil
  then show ?case by simp
next
  case (Cons b bs)
  show ?case
    unfolding ensure_rows_loop.simps uid_def now_def Let_def prod.case
    by (rule Cons.IH, rule insert_or_ignore_month_distinct) (use Cons.prems in simp)
qed

lemma distinct_count_one:
  "distinct (map f xs) \<Longrightarrow> k \<in> set (map f xs) \<Longrightarrow> length [x \<leftarrow> xs. f x = k] = 1"
proof (induction xs)
  case Nil
  then show ?case by simp
next
  case (Cons x xs)
  show ?case
  proof (cases "f x = k")
    case True
    have "f x \<notin> f ` set xs" using Cons.prems(1) by simp
    then have "\<forall>y \<in> set xs. f y \<noteq> k" using True by blast
    then have "[y \<leftarrow> xs. f y = k] = []" by (simp add: filter_empty_conv)
    then show ?thesis using True by simp
  next
    case False
    then show ?thesis using Cons by auto
  qed
qed

lemma payment_rows_by_key:
  "[p \<leftarrow> ps. bp_bill_id p = b \<and> bp_month p = month] =
   [p \<leftarrow> [p \<leftarrow> ps. bp_month p = month]. bill_payment_key p = (b, month)]"
  by (induction ps) (auto simp: bill_payment_key_def)

lemma ensure_bill_payment_rows_frame:
  "owners (ensure_bill_payment_rows month w) = owners w"
  "categories (ensure_bill_payment_rows month w) = categories w"
  "bills (ensure_bill_payment_rows month w) = bills w"
  "accounts (ensure_bill_payment_rows month w) = accounts w"
  "account_snapshots (ensure_bill_payment_rows month w) = account_snapshots w"
  "transactions (ensure_bill_payment_rows month w) = transactions w"
  "budgets (ensure_bill_payment_rows month w) = budgets w"
  "month_closings (ensure_bill_payment_rows month w) = month_closings w"
  by (simp_all add: ensure_bill_payment_rows_def ensure_rows_loop_frame)

lemma ensure_bill_payment_rows_covers:
  assumes "b \<in> set (bills w)" "b_active b"
  shows "\<exists>p \<in> set (bill_payments (ensure_bill_payment_rows month w)).
           bp_bill_id p = b_id b \<and> bp_month p = strip month"
proof -
  have "b_id b \<in> set [b_id b. b \<leftarrow> bills w, b_active b]" using assms by auto
  then have "(b_id b, strip month) \<in> set (map bill_payment_key
      (bill_payments (ensure_rows_loop (strip month) [b_id b. b \<leftarrow> bills w, b_active b] w)))"
    by (rule ensure_rows_loop_covers)
  then show ?thesis
    by (auto simp: ensure_bill_payment_rows_def bill_payment_key_def)
qed

lemma ensure_bill_payment_rows_appends:
  "\<exists>new. bill_payments (ensure_bill_payment_rows month w) = bill_payments w @ new \<and>
         list_all (blank_payment (strip month)) new"
  using ensure_rows_loop_appends [of "strip month" _ w]
  by (simp add: ensure_bill_payment_rows_def) blast

lemma ensure_bill_payment_rows_twice:
  "bill_payments (ensure_bill_payment_rows month (ensure_bill_payment_rows month w)) =
   bill_payments (ensure_bill_payment_rows month w)"
proof -
  let ?w1 = "ensure_bill_payment_rows month w"
  have "\<forall>b \<in> set [b_id b. b \<leftarrow> bills ?w1, b_active b].
          (b, strip month) \<in> set (map bill_payment_key (bill_payments ?w1))"
  proof
    fix b assume "b \<in> set [b_id b. b \<leftarrow> bills ?w1, b_active b]"
    then have "b \<in> set [b_id b. b \<leftarrow> bills w, b_active b]"
      by (simp add: ensure_bill_payment_rows_frame)
    then show "(b, strip month) \<in> set (map bill_payment_key (bill_payments ?w1))"
      unfolding ensure_bill_payment_rows_def Let_def by (rule ensure_rows_loop_covers)
  qed
  then show ?thesis
    unfolding ensure_bill_payment_rows_def [of month ?w1] Let_def
    by (rule ensure_rows_loop_noop)
qed

lemma bills_due_view_world: "snd (bills_due_view m w) = ensure_bill_payment_rows (strip m) w"
  by (simp add: bills_due_view_def Let_def)

lemma ensure_bill_payment_rows_strip:
  "ensure_bill_payment_rows (strip m) w = ensure_bill_payment_rows m w"
  by (simp add: ensure_bill_payment_rows_def strip_idem)

text \<open>
  Claim C6. For every month \<open>m\<close>, \<open>bills_due_view m\<close> leaves a payment row for \<open>m\<close> behind
  for every active bill; a second call changes no payment row; the rows that were there
  before the call are still there, unchanged and in place, and every row the call adds is
  unpaid with no amount, date or note; and when no payment row for \<open>m\<close> existed, two calls
  in a row leave exactly one payment row for \<open>m\<close> per active bill.
\<close>

theorem bills_due_materialises_once:
  "(\<forall>b \<in> set (bills w). b_active b \<longrightarrow>
      (\<exists>p \<in> set (bill_payments (snd (bills_due_view m w))).
         bp_bill_id p = b_id b \<and> bp_month p = strip m)) \<and>
   bill_payments (snd (bills_due_view m (snd (bills_due_view m w)))) =
     bill_payments (snd (bills_due_view m w)) \<and>
   (\<exists>new. bill_payments (snd (bills_due_view m w)) = bill_payments w @ new \<and>
          list_all (blank_payment (strip m)) new) \<and>
   ([p \<leftarrow> bill_payments w. bp_month p = strip m] = [] \<longrightarrow>
      (\<forall>b \<in> set (bills w). b_active b \<longrightarrow>
         length [p \<leftarrow> bill_payments (snd (bills_due_view m (snd (bills_due_view m w)))).
                  bp_bill_id p = b_id b \<and> bp_month p = strip m] = 1))"
proof (intro conjI)
  let ?w1 = "ensure_bill_payment_rows m w"
  have w1: "snd (bills_due_view m w) = ?w1"
    by (simp add: bills_due_view_world ensure_bill_payment_rows_strip)
  have w2: "bill_payments (snd (bills_due_view m (snd (bills_due_view m w)))) = bill_payments ?w1"
    by (simp add: bills_due_view_world ensure_bill_payment_rows_strip
        ensure_bill_payment_rows_twice)
  show "\<forall>b \<in> set (bills w). b_active b \<longrightarrow>
      (\<exists>p \<in> set (bill_payments (snd (bills_due_view m w))).
         bp_bill_id p = b_id b \<and> bp_month p = strip m)"
    unfolding w1 using ensure_bill_payment_rows_covers by blast
  show "bill_payments (snd (bills_due_view m (snd (bills_due_view m w)))) =
     bill_payments (snd (bills_due_view m w))"
    using w2 w1 by simp
  show "\<exists>new. bill_payments (snd (bills_due_view m w)) = bill_payments w @ new \<and>
          list_all (blank_payment (strip m)) new"
    unfolding w1 by (rule ensure_bill_payment_rows_appends)
  show "[p \<leftarrow> bill_payments w. bp_month p = strip m] = [] \<longrightarrow>
      (\<forall>b \<in> set (bills w). b_active b \<longrightarrow>
         length [p \<leftarrow> bill_payments (snd (bills_due_view m (snd (bills_due_view m w)))).
                  bp_bill_id p = b_id b \<and> bp_month p = strip m] = 1)"
  proof (intro impI ballI)
    fix b
    assume empty: "[p \<leftarrow> bill_payments w. bp_month p = strip m] = []"
      and b: "b \<in> set (bills w)" "b_active b"
    let ?rows = "[p \<leftarrow> bill_payments ?w1. bp_month p = strip m]"
    have d: "distinct (map bill_payment_key ?rows)"
      unfolding ensure_bill_payment_rows_def Let_def
      by (rule ensure_rows_loop_month_distinct) (simp add: empty)
    obtain p where "p \<in> set (bill_payments ?w1)" "bp_bill_id p = b_id b" "bp_month p = strip m"
      using ensure_bill_payment_rows_covers [OF b] by blast
    then have "(b_id b, strip m) \<in> set (map bill_payment_key ?rows)"
      by (force simp: bill_payment_key_def)
    with d have "length [p \<leftarrow> ?rows. bill_payment_key p = (b_id b, strip m)] = 1"
      by (rule distinct_count_one)
    then show "length [p \<leftarrow> bill_payments (snd (bills_due_view m (snd (bills_due_view m w)))).
                  bp_bill_id p = b_id b \<and> bp_month p = strip m] = 1"
      unfolding w2 by (simp only: payment_rows_by_key)
  qed
qed

theorem bills_due_materialises_once_witness:
  "[p \<leftarrow> bill_payments demo. bp_month p = strip ''2026-01''] = [] \<and>
   length [p \<leftarrow> bill_payments (snd (bills_due_view ''2026-01''
                                           (snd (bills_due_view ''2026-01'' demo)))).
            bp_bill_id p = 20 \<and> bp_month p = ''2026-01''] = 1 \<and>
   (\<exists>p \<in> set (bill_payments (snd (bills_due_view ''2026-01'' demo))).
      bp_bill_id p = 20 \<and> bp_month p = ''2026-01'')"
proof -
  let ?rent = "\<lparr>b_id = 20, b_owner_id = 1, b_name = ''Rent'', due_day = Some 1,
                 default_amount = Some 1200, b_active = True\<rparr>"
  have s: "strip ''2026-01'' = ''2026-01''" by (simp add: strip_def isspace_def)
  have e: "[p \<leftarrow> bill_payments demo. bp_month p = strip ''2026-01''] = []"
    by (simp add: demo_def)
  have b: "?rent \<in> set (bills demo)" "b_active ?rent" "b_id ?rent = 20"
    by (simp_all add: demo_def)
  note t = bills_due_materialises_once [of demo "''2026-01''"]
  from t b have one: "\<exists>p \<in> set (bill_payments (snd (bills_due_view ''2026-01'' demo))).
      bp_bill_id p = 20 \<and> bp_month p = strip ''2026-01''"
    by fastforce
  from t e b have two: "length [p \<leftarrow> bill_payments (snd (bills_due_view ''2026-01''
                                           (snd (bills_due_view ''2026-01'' demo)))).
            bp_bill_id p = 20 \<and> bp_month p = strip ''2026-01''] = 1"
    by fastforce
  show ?thesis using e one two unfolding s by blast
qed

section \<open>Facts about closing a month\<close>

lemma is_month_closed_strip: "is_month_closed (strip m) w = is_month_closed m w"
  by (simp add: is_month_closed_def strip_idem)

lemma is_month_closed_iff:
  "is_month_closed m w \<longleftrightarrow> strip m \<in> set (map mc_month (month_closings w))"
  by (force simp: is_month_closed_def filter_empty_conv)

lemma close_month_open:
  assumes "\<not> month_shape_bad (strip m)" "\<not> is_month_closed m w"
  shows "\<exists>w' row. close_month m memo w = Inr w' \<and>
           month_closings w' = month_closings w @ [row] \<and> mc_month row = strip m \<and>
           bill_payments w' = bill_payments (ensure_bill_payment_rows m w) \<and>
           bills w' = bills w"
  using assms
  by (simp add: close_month_def Let_def is_month_closed_strip uid_def now_def
      ensure_bill_payment_rows_frame ensure_bill_payment_rows_strip)

lemma close_month_closed:
  assumes "\<not> month_shape_bad (strip m)" "is_month_closed m w"
  shows "close_month m memo w = Inr w"
  using assms by (simp add: close_month_def Let_def is_month_closed_strip)

text \<open>
  Claim C2. For every month \<open>m\<close> of the shape YYYY-MM, \<open>close_month m\<close> succeeds and the
  month is closed afterwards; a further call on the closed month returns the state as it is;
  on a month that was already closed the first call changes nothing either; and on a month
  that was open the call appends one closing row for \<open>m\<close> to the state that
  \<open>ensure_bill_payment_rows m\<close> has produced, in which every active bill has a payment row
  for \<open>m\<close>.
\<close>

theorem close_month_idempotent:
  assumes "valid_month m"
  shows "\<exists>w'. close_month m memo w = Inr w' \<and> is_month_closed m w' \<and>
           close_month m memo' w' = Inr w' \<and>
           (is_month_closed m w \<longrightarrow> w' = w) \<and>
           (\<not> is_month_closed m w \<longrightarrow>
              (\<exists>row. month_closings w' = month_closings w @ [row] \<and> mc_month row = m) \<and>
              bill_payments w' = bill_payments (ensure_bill_payment_rows m w) \<and>
              (\<forall>b \<in> set (bills w). b_active b \<longrightarrow>
                 (\<exists>p \<in> set (bill_payments w'). bp_bill_id p = b_id b \<and> bp_month p = m)))"
proof -
  have s: "strip m = m" using assms by (rule valid_month_strip)
  have ok: "\<not> month_shape_bad (strip m)" using assms s by (simp add: valid_month_shape)
  show ?thesis
  proof (cases "is_month_closed m w")
    case True
    then show ?thesis using close_month_closed [OF ok True] by simp
  next
    case False
    obtain w' row where w': "close_month m memo w = Inr w'"
        "month_closings w' = month_closings w @ [row]" "mc_month row = strip m"
        "bill_payments w' = bill_payments (ensure_bill_payment_rows m w)" "bills w' = bills w"
      using close_month_open [OF ok False, of memo] by blast
    have closed: "is_month_closed m w'" using w'(2,3) by (simp add: is_month_closed_iff)
    have again: "close_month m memo' w' = Inr w'" using ok closed by (rule close_month_closed)
    have cover: "\<forall>b \<in> set (bills w). b_active b \<longrightarrow>
        (\<exists>p \<in> set (bill_payments w'). bp_bill_id p = b_id b \<and> bp_month p = m)"
      using ensure_bill_payment_rows_covers [of _ w m] w'(4) s by auto
    show ?thesis using w' closed again cover False s by auto
  qed
qed

theorem close_month_idempotent_witness:
  "valid_month ''2026-01'' \<and> \<not> is_month_closed ''2026-01'' demo \<and>
   (\<exists>w'. close_month ''2026-01'' None demo = Inr w' \<and> is_month_closed ''2026-01'' w' \<and>
      close_month ''2026-01'' (Some ''again'') w' = Inr w' \<and>
      (\<exists>row. month_closings w' = month_closings demo @ [row] \<and> mc_month row = ''2026-01'') \<and>
      (\<exists>p \<in> set (bill_payments w'). bp_bill_id p = 20 \<and> bp_month p = ''2026-01''))"
proof -
  have v: "valid_month ''2026-01''" by (simp add: valid_month_def isdigit_def)
  have o: "\<not> is_month_closed ''2026-01'' demo" by (simp add: is_month_closed_def demo_def)
  have b: "\<lparr>b_id = 20, b_owner_id = 1, b_name = ''Rent'', due_day = Some 1,
                 default_amount = Some 1200, b_active = True\<rparr> \<in> set (bills demo)"
    by (simp add: demo_def)
  obtain w' where w': "close_month ''2026-01'' None demo = Inr w'"
      "is_month_closed ''2026-01'' w'" "close_month ''2026-01'' (Some ''again'') w' = Inr w'"
      "\<exists>row. month_closings w' = month_closings demo @ [row] \<and> mc_month row = ''2026-01''"
      "\<forall>b \<in> set (bills demo). b_active b \<longrightarrow>
         (\<exists>p \<in> set (bill_payments w'). bp_bill_id p = b_id b \<and> bp_month p = ''2026-01'')"
    using close_month_idempotent [OF v, of None demo "Some ''again''"] o by blast
  from w'(5) b have "\<exists>p \<in> set (bill_payments w'). bp_bill_id p = 20 \<and> bp_month p = ''2026-01''"
    by fastforce
  then show ?thesis using v o w'(1-4) by blast
qed

section \<open>The month guard\<close>

lemma upsert_budget_result:
  assumes "\<not> month_shape_bad (strip m)"
  shows "\<exists>w'. upsert_budget m ow c v w = Inr w' \<and>
     budgets w' =
       (if (strip m, ow, c) \<in> set (map budget_key (budgets w))
        then map (\<lambda>b. if budget_key b = (strip m, ow, c)
                      then b\<lparr>planned_amount := v, bg_updated_at := Suc (clock w)\<rparr> else b)
               (budgets w)
        else budgets w @
               [\<lparr>bg_id = uid_next w, bg_month = strip m, bg_owner_id = ow, bg_category_id = c,
                 planned_amount = v, bg_created_at = clock w, bg_updated_at = Suc (clock w)\<rparr>]) \<and>
     month_closings w' = month_closings w \<and> transactions w' = transactions w \<and>
     account_snapshots w' = account_snapshots w \<and> bill_payments w' = bill_payments w \<and>
     owners w' = owners w \<and> categories w' = categories w \<and> bills w' = bills w \<and>
     accounts w' = accounts w"
  using assms by (simp add: upsert_budget_def Let_def uid_def now_def)

lemma upsert_snapshot_result:
  assumes "\<not> month_shape_bad (strip m)"
  shows "\<exists>w'. upsert_snapshot a m b p w = Inr w' \<and>
     account_snapshots w' =
       (if (a, strip m) \<in> set (map snapshot_key (account_snapshots w))
        then map (\<lambda>s. if snapshot_key s = (a, strip m)
                      then s\<lparr>balance := b, payment := p, s_updated_at := Suc (clock w)\<rparr> else s)
               (account_snapshots w)
        else account_snapshots w @
               [\<lparr>s_id = uid_next w, s_account_id = a, s_month = strip m, balance = b,
                 payment = p, s_created_at = clock w, s_updated_at = Suc (clock w)\<rparr>]) \<and>
     month_closings w' = month_closings w \<and> transactions w' = transactions w \<and>
     budgets w' = budgets w \<and> bill_payments w' = bill_payments w \<and>
     owners w' = owners w \<and> categories w' = categories w \<and> bills w' = bills w \<and>
     accounts w' = accounts w"
  using assms by (simp add: upsert_snapshot_def Let_def uid_def now_def)





section \<open>The two upserts\<close>

lemma update_keeps_keys:
  "(\<And>x. f (g x) = f x) \<Longrightarrow> map f (map (\<lambda>x. if f x = k then g x else x) xs) = map f xs"
  by (induction xs) auto

lemma update_hits_one:
  assumes "distinct (map f xs)" "k \<in> set (map f xs)" "\<And>x. f (g x) = f x"
  shows "\<exists>x \<in> set xs. [y \<leftarrow> map (\<lambda>x. if f x = k then g x else x) xs. f y = k] = [g x]"
  using assms(1,2)
proof (induction xs)
  case Nil
  then show ?case by simp
next
  case (Cons x xs)
  show ?case
  proof (cases "f x = k")
    case True
    then have "k \<notin> set (map f xs)" using Cons.prems(1) by auto
    then have "k \<notin> set (map f (map (\<lambda>x. if f x = k then g x else x) xs))"
      by (simp only: update_keeps_keys [of f g, OF assms(3)] not_False_eq_True)
    then have "[y \<leftarrow> map (\<lambda>x. if f x = k then g x else x) xs. f y = k] = []"
      by (auto simp: filter_empty_conv)
    then show ?thesis using True assms(3) by simp
  next
    case False
    then have "k \<in> set (map f xs)" "distinct (map f xs)" using Cons.prems by auto
    then obtain y where "y \<in> set xs"
        "[y \<leftarrow> map (\<lambda>x. if f x = k then g x else x) xs. f y = k] = [g y]"
      using Cons.IH by blast
    then show ?thesis using False by auto
  qed
qed

lemma append_hits_one:
  assumes "k \<notin> set (map f xs)" "f r = k"
  shows "[y \<leftarrow> xs @ [r]. f y = k] = [r]"
proof -
  have "\<forall>x \<in> set xs. f x \<noteq> k" using assms(1) by (metis image_eqI set_map)
  then have "[y \<leftarrow> xs. f y = k] = []" by (simp add: filter_empty_conv)
  then show ?thesis using assms(2) by simp
qed

lemma upsert_budget_once:
  assumes ok: "\<not> month_shape_bad (strip m)" and d: "distinct (map budget_key (budgets w))"
  shows "\<exists>w' row. upsert_budget m ow c v w = Inr w' \<and>
           [b \<leftarrow> budgets w'. budget_key b = (strip m, ow, c)] = [row] \<and>
           planned_amount row = v \<and> distinct (map budget_key (budgets w')) \<and>
           (if (strip m, ow, c) \<in> set (map budget_key (budgets w))
            then length (budgets w') = length (budgets w)
            else length (budgets w') = Suc (length (budgets w)))"
proof -
  let ?k = "(strip m, ow, c)"
  let ?g = "\<lambda>b. b\<lparr>planned_amount := v, bg_updated_at := Suc (clock w)\<rparr>"
  let ?r = "\<lparr>bg_id = uid_next w, bg_month = strip m, bg_owner_id = ow, bg_category_id = c,
             planned_amount = v, bg_created_at = clock w, bg_updated_at = Suc (clock w)\<rparr>"
  obtain w' where w': "upsert_budget m ow c v w = Inr w'"
    "budgets w' = (if ?k \<in> set (map budget_key (budgets w))
        then map (\<lambda>b. if budget_key b = ?k then ?g b else b) (budgets w)
        else budgets w @ [?r])"
    using upsert_budget_result [OF ok] by blast
  have g: "\<And>b. budget_key (?g b) = budget_key b" by (simp add: budget_key_def)
  show ?thesis
  proof (cases "?k \<in> set (map budget_key (budgets w))")
    case True
    have b: "budgets w' = map (\<lambda>b. if budget_key b = ?k then ?g b else b) (budgets w)"
      using w'(2) True by simp
    obtain x where "[b \<leftarrow> budgets w'. budget_key b = ?k] = [?g x]"
      unfolding b using update_hits_one [of budget_key "budgets w" ?k ?g, OF d True g] by blast
    moreover have "distinct (map budget_key (budgets w'))"
      unfolding b using d by (simp only: update_keeps_keys [of budget_key ?g, OF g])
    moreover have "length (budgets w') = length (budgets w)" unfolding b by simp
    ultimately show ?thesis using w'(1) True by auto
  next
    case False
    have b: "budgets w' = budgets w @ [?r]" using w'(2) False by simp
    have "[b \<leftarrow> budgets w'. budget_key b = ?k] = [?r]"
      unfolding b by (rule append_hits_one [OF False]) (simp add: budget_key_def)
    moreover have "distinct (map budget_key (budgets w'))"
      unfolding b using d False by (simp add: budget_key_def)
    moreover have "length (budgets w') = Suc (length (budgets w))" unfolding b by simp
    ultimately show ?thesis using w'(1) False by auto
  qed
qed

lemma upsert_snapshot_once:
  assumes ok: "\<not> month_shape_bad (strip m)" and d: "distinct (map snapshot_key (account_snapshots w))"
  shows "\<exists>w' row. upsert_snapshot a m b p w = Inr w' \<and>
           [s \<leftarrow> account_snapshots w'. snapshot_key s = (a, strip m)] = [row] \<and>
           balance row = b \<and> payment row = p \<and>
           distinct (map snapshot_key (account_snapshots w')) \<and>
           (if (a, strip m) \<in> set (map snapshot_key (account_snapshots w))
            then length (account_snapshots w') = length (account_snapshots w)
            else length (account_snapshots w') = Suc (length (account_snapshots w)))"
proof -
  let ?k = "(a, strip m)"
  let ?g = "\<lambda>s. s\<lparr>balance := b, payment := p, s_updated_at := Suc (clock w)\<rparr>"
  let ?r = "\<lparr>s_id = uid_next w, s_account_id = a, s_month = strip m, balance = b,
             payment = p, s_created_at = clock w, s_updated_at = Suc (clock w)\<rparr>"
  obtain w' where w': "upsert_snapshot a m b p w = Inr w'"
    "account_snapshots w' = (if ?k \<in> set (map snapshot_key (account_snapshots w))
        then map (\<lambda>s. if snapshot_key s = ?k then ?g s else s) (account_snapshots w)
        else account_snapshots w @ [?r])"
    using upsert_snapshot_result [OF ok] by blast
  have g: "\<And>s. snapshot_key (?g s) = snapshot_key s" by (simp add: snapshot_key_def)
  show ?thesis
  proof (cases "?k \<in> set (map snapshot_key (account_snapshots w))")
    case True
    have s: "account_snapshots w' = map (\<lambda>s. if snapshot_key s = ?k then ?g s else s) (account_snapshots w)"
      using w'(2) True by simp
    obtain x where "[s \<leftarrow> account_snapshots w'. snapshot_key s = ?k] = [?g x]"
      unfolding s
      using update_hits_one [of snapshot_key "account_snapshots w" ?k ?g, OF d True g] by blast
    moreover have "distinct (map snapshot_key (account_snapshots w'))"
      unfolding s using d by (simp only: update_keeps_keys [of snapshot_key ?g, OF g])
    moreover have "length (account_snapshots w') = length (account_snapshots w)"
      unfolding s by simp
    ultimately show ?thesis using w'(1) True by auto
  next
    case False
    have s: "account_snapshots w' = account_snapshots w @ [?r]" using w'(2) False by simp
    have "[s \<leftarrow> account_snapshots w'. snapshot_key s = ?k] = [?r]"
      unfolding s by (rule append_hits_one [OF False]) (simp add: snapshot_key_def)
    moreover have "distinct (map snapshot_key (account_snapshots w'))"
      unfolding s using d False by (simp add: snapshot_key_def)
    moreover have "length (account_snapshots w') = Suc (length (account_snapshots w))"
      unfolding s by simp
    ultimately show ?thesis using w'(1) False by auto
  qed
qed

text \<open>
  Claim C7. On a database whose budgets and snapshots have distinct keys, and for a month
  that passes the guard, two calls of \<open>upsert_budget\<close> with the same month, owner and
  category succeed and leave exactly one budget row with that key, holding the second planned
  amount; the second call adds no row. The same holds of \<open>upsert_snapshot\<close> for the key of
  account and month, with the second balance and payment.
\<close>

theorem upserts_keep_one_row:
  assumes "\<not> month_shape_bad (strip m)"
    and "distinct (map budget_key (budgets w))"
    and "distinct (map snapshot_key (account_snapshots w))"
  shows "(\<exists>w1 w2 row. upsert_budget m ow c v1 w = Inr w1 \<and> upsert_budget m ow c v2 w1 = Inr w2 \<and>
            [b \<leftarrow> budgets w2. budget_key b = (strip m, ow, c)] = [row] \<and>
            planned_amount row = v2 \<and> length (budgets w2) = length (budgets w1) \<and>
            distinct (map budget_key (budgets w2))) \<and>
         (\<exists>w1 w2 row. upsert_snapshot a m b1 p1 w = Inr w1 \<and>
            upsert_snapshot a m b2 p2 w1 = Inr w2 \<and>
            [s \<leftarrow> account_snapshots w2. snapshot_key s = (a, strip m)] = [row] \<and>
            balance row = b2 \<and> payment row = p2 \<and>
            length (account_snapshots w2) = length (account_snapshots w1) \<and>
            distinct (map snapshot_key (account_snapshots w2)))"
proof
  obtain w1 r1 where w1: "upsert_budget m ow c v1 w = Inr w1"
      "[b \<leftarrow> budgets w1. budget_key b = (strip m, ow, c)] = [r1]"
      "distinct (map budget_key (budgets w1))"
    using upsert_budget_once [OF assms(1,2), of ow c v1] by blast
  have in1: "(strip m, ow, c) \<in> set (map budget_key (budgets w1))"
  proof -
    have "r1 \<in> set [b \<leftarrow> budgets w1. budget_key b = (strip m, ow, c)]" using w1(2) by simp
    then show ?thesis by force
  qed
  obtain w2 r2 where w2: "upsert_budget m ow c v2 w1 = Inr w2"
      "[b \<leftarrow> budgets w2. budget_key b = (strip m, ow, c)] = [r2]" "planned_amount r2 = v2"
      "distinct (map budget_key (budgets w2))" "length (budgets w2) = length (budgets w1)"
    using upsert_budget_once [OF assms(1) w1(3), of ow c v2] in1 by auto
  show "\<exists>w1 w2 row. upsert_budget m ow c v1 w = Inr w1 \<and> upsert_budget m ow c v2 w1 = Inr w2 \<and>
            [b \<leftarrow> budgets w2. budget_key b = (strip m, ow, c)] = [row] \<and>
            planned_amount row = v2 \<and> length (budgets w2) = length (budgets w1) \<and>
            distinct (map budget_key (budgets w2))"
    using w1(1) w2 by blast
next
  obtain w1 r1 where w1: "upsert_snapshot a m b1 p1 w = Inr w1"
      "[s \<leftarrow> account_snapshots w1. snapshot_key s = (a, strip m)] = [r1]"
      "distinct (map snapshot_key (account_snapshots w1))"
    using upsert_snapshot_once [OF assms(1,3), of a b1 p1] by blast
  have in1: "(a, strip m) \<in> set (map snapshot_key (account_snapshots w1))"
  proof -
    have "r1 \<in> set [s \<leftarrow> account_snapshots w1. snapshot_key s = (a, strip m)]"
      using w1(2) by simp
    then show ?thesis by force
  qed
  obtain w2 r2 where w2: "upsert_snapshot a m b2 p2 w1 = Inr w2"
      "[s \<leftarrow> account_snapshots w2. snapshot_key s = (a, strip m)] = [r2]"
      "balance r2 = b2" "payment r2 = p2"
      "distinct (map snapshot_key (account_snapshots w2))"
      "length (account_snapshots w2) = length (account_snapshots w1)"
    using upsert_snapshot_once [OF assms(1) w1(3), of a b2 p2] in1 by auto
  show "\<exists>w1 w2 row. upsert_snapshot a m b1 p1 w = Inr w1 \<and>
            upsert_snapshot a m b2 p2 w1 = Inr w2 \<and>
            [s \<leftarrow> account_snapshots w2. snapshot_key s = (a, strip m)] = [row] \<and>
            balance row = b2 \<and> payment row = p2 \<and>
            length (account_snapshots w2) = length (account_snapshots w1) \<and>
            distinct (map snapshot_key (account_snapshots w2))"
    using w1(1) w2 by blast
qed

theorem upserts_keep_one_row_witness:
  "\<not> month_shape_bad (strip ''2026-01'') \<and>
   distinct (map budget_key (budgets demo)) \<and>
   distinct (map snapshot_key (account_snapshots demo)) \<and>
   (\<exists>w1 w2 row. upsert_budget ''2026-01'' 1 10 150 demo = Inr w1 \<and>
      upsert_budget ''2026-01'' 1 10 175 w1 = Inr w2 \<and>
      [b \<leftarrow> budgets w2. budget_key b = (''2026-01'', 1, 10)] = [row] \<and>
      planned_amount row = 175) \<and>
   (\<exists>w1 w2 row. upsert_snapshot 31 ''2026-01'' 9000 250 demo = Inr w1 \<and>
      upsert_snapshot 31 ''2026-01'' 8800 200 w1 = Inr w2 \<and>
      [s \<leftarrow> account_snapshots w2. snapshot_key s = (31, ''2026-01'')] = [row] \<and>
      balance row = 8800 \<and> payment row = 200)"
proof -
  have s: "strip ''2026-01'' = ''2026-01''" by (simp add: strip_def isspace_def)
  have ok: "\<not> month_shape_bad (strip ''2026-01'')" by (simp add: s month_shape_bad_def)
  have d1: "distinct (map budget_key (budgets demo))" by (simp add: demo_def budget_key_def)
  have d2: "distinct (map snapshot_key (account_snapshots demo))"
    by (simp add: demo_def snapshot_key_def)
  show ?thesis
    using upserts_keep_one_row [OF ok d1 d2, of 1 10 150 175 31 9000 250 8800 200] ok d1 d2
    unfolding s by blast
qed

section \<open>Planned versus actual\<close>


















section \<open>Soft deletion\<close>

lemma concat_map_hidden:
  assumes "\<And>t. deleted_at t \<noteq> None \<Longrightarrow> F t = []"
  shows "concat (map F (map (\<lambda>t. if t_id t = tid
                                then t\<lparr>deleted_at := Some d, t_updated_at := u\<rparr> else t) ts)) =
         concat (map F [t \<leftarrow> ts. t_id t \<noteq> tid])"
  by (induction ts) (simp_all add: assms)

lemma filter_hidden:
  "[t \<leftarrow> map (\<lambda>t. if t_id t = tid then t\<lparr>deleted_at := Some d, t_updated_at := u\<rparr> else t) ts.
      deleted_at t = None \<and> P t] =
   [t \<leftarrow> [t \<leftarrow> ts. t_id t \<noteq> tid]. deleted_at t = None \<and> P t]"
  by (induction ts) simp_all

lemma concat_map_nil: "(\<And>x. x \<in> set xs \<Longrightarrow> f x = []) \<Longrightarrow> concat (map f xs) = []"
  by (induction xs) simp_all

lemma soft_delete_frame:
  "owners (soft_delete_transaction tid w) = owners w"
  "categories (soft_delete_transaction tid w) = categories w"
  "budgets (soft_delete_transaction tid w) = budgets w"
  "transactions (soft_delete_transaction tid w) =
     map (\<lambda>t. if t_id t = tid then t\<lparr>deleted_at := Some (clock w), t_updated_at := Suc (clock w)\<rparr>
               else t) (transactions w)"
  by (simp_all add: soft_delete_transaction_def now_def)

lemma txn_join_soft_delete:
  "txn_join month (soft_delete_transaction tid w) = txn_join month (without_transaction tid w)"
proof -
  have w: "owners (without_transaction tid w) = owners w"
    "categories (without_transaction tid w) = categories w"
    "transactions (without_transaction tid w) = [t \<leftarrow> transactions w. t_id t \<noteq> tid]"
    by (simp_all add: without_transaction_def)
  show ?thesis
    unfolding txn_join_def soft_delete_frame w
  proof (rule concat_map_hidden)
    fix t :: txn
    assume d: "deleted_at t \<noteq> None"
    have inner: "\<And>ow. concat (map (\<lambda>c. if c_id c = t_category_id t
               then if deleted_at t = None \<and> in_month month t then [(t, ow, c)] else []
               else []) (categories w)) = []"
      by (intro concat_map_nil) (use d in auto)
    show "concat (map (\<lambda>ow. if o_id ow = t_owner_id t
               then concat (map (\<lambda>c. if c_id c = t_category_id t
                 then if deleted_at t = None \<and> in_month month t then [(t, ow, c)] else []
                 else []) (categories w))
               else []) (owners w)) = []"
      by (intro concat_map_nil) (simp only: inner if_cancel)
  qed
qed

lemma act_soft_delete:
  "act month (soft_delete_transaction tid w) = act month (without_transaction tid w)"
  unfolding act_def soft_delete_frame filter_hidden
  by (simp add: without_transaction_def)

lemma pva_joined_soft_delete:
  "pva_joined month (soft_delete_transaction tid w) = pva_joined month (without_transaction tid w)"
  unfolding pva_joined_def act_soft_delete soft_delete_frame
  by (simp add: without_transaction_def)

text \<open>
  Claim C9. After \<open>soft_delete_transaction tid\<close> the listing of transactions, the export
  rows and the planned-versus-actual rows are those of the database from which the rows with
  identifier \<open>tid\<close> have been removed, and no listed row has that identifier; the stored
  table keeps its length and, row by row, the identifier, date, owner, category, description
  and amount it had.
\<close>

theorem soft_delete_hides_row:
  "get_transactions month (soft_delete_transaction tid w) =
     get_transactions month (without_transaction tid w) \<and>
   export_transactions_rows month (soft_delete_transaction tid w) =
     export_transactions_rows month (without_transaction tid w) \<and>
   planned_vs_actual m (soft_delete_transaction tid w) =
     planned_vs_actual m (without_transaction tid w) \<and>
   tid \<notin> set (map tr_id (get_transactions month (soft_delete_transaction tid w))) \<and>
   length (transactions (soft_delete_transaction tid w)) = length (transactions w) \<and>
   map (\<lambda>t. (t_id t, txn_date t, t_owner_id t, t_category_id t, description t, t_amount t))
       (transactions (soft_delete_transaction tid w)) =
     map (\<lambda>t. (t_id t, txn_date t, t_owner_id t, t_category_id t, description t, t_amount t))
       (transactions w)"
proof (intro conjI)
  show g: "get_transactions month (soft_delete_transaction tid w) =
     get_transactions month (without_transaction tid w)"
    using txn_join_soft_delete [of month tid w]
    by (simp add: get_transactions_def txn_join_def)
  show "export_transactions_rows month (soft_delete_transaction tid w) =
     export_transactions_rows month (without_transaction tid w)"
    using txn_join_soft_delete [of month tid w]
    by (simp add: export_transactions_rows_def txn_join_def)
  show "planned_vs_actual m (soft_delete_transaction tid w) =
     planned_vs_actual m (without_transaction tid w)"
    by (simp add: planned_vs_actual_def Let_def pva_joined_soft_delete)
  show "tid \<notin> set (map tr_id (get_transactions month (soft_delete_transaction tid w)))"
    unfolding g by (auto simp: get_transactions_def without_transaction_def)
  show "length (transactions (soft_delete_transaction tid w)) = length (transactions w)"
    by (simp add: soft_delete_frame)
  show "map (\<lambda>t. (t_id t, txn_date t, t_owner_id t, t_category_id t, description t, t_amount t))
       (transactions (soft_delete_transaction tid w)) =
     map (\<lambda>t. (t_id t, txn_date t, t_owner_id t, t_category_id t, description t, t_amount t))
       (transactions w)"
    by (simp add: soft_delete_frame)
qed

section \<open>Debt progress\<close>






















section \<open>The function that cannot run\<close>

text \<open>
  Claim C10. For every bill, amount, flag and database, \<open>update_bill_amount_and_recurring\<close>
  returns the \<^verbatim>\<open>NameError\<close> for \<^verbatim>\<open>get_db\<close>; an error result carries no state.
\<close>

theorem update_bill_never_runs:
  "update_bill_amount_and_recurring bill_id planned_amount' recurring w =
     Inl (NameError ''name get_db is not defined'')"
  by (simp add: update_bill_amount_and_recurring_def load_global_def module_globals_def)

section \<open>Amounts of stored transactions\<close>


section \<open>The confirmation gate\<close>










lemma try_write_world: "flow_world (try_write write w) = after_write write w"
  by (simp add: flow_world_def try_write_def after_write_def split: sum.split)

lemma bare_write_world: "flow_world (bare_write write w) = after_write write w"
  by (simp add: flow_world_def bare_write_def after_write_def split: sum.split)






end
